theory Spec2Isabelle
  imports Main "HOL-Library.Sublist" "HOL-Library.Multiset"
begin

section \<open>SQL-to-Prisma conversion: the parser's segmenter and linker, the generator's naming\<close>

text \<open>
  The development follows \<^verbatim>\<open>src/services/sql-parser.ts\<close> and
  \<^verbatim>\<open>src/services/prisma-generator.ts\<close>. JavaScript strings are modelled as
  \<^typ>\<open>string\<close>; \<^verbatim>\<open>toUpperCase\<close> and \<^verbatim>\<open>toLowerCase\<close> are modelled on
  the ASCII letters (every other character is left as it is), which is what they do on
  the identifiers of an ASCII schema. \<^verbatim>\<open>undefined\<close> is \<open>None\<close>, a thrown
  \<^verbatim>\<open>TypeError\<close> is a value of the error type.
\<close>

subsection \<open>String primitives of the runtime\<close>

definition upper_letters :: string where
  "upper_letters = ''ABCDEFGHIJKLMNOPQRSTUVWXYZ''"

definition lower_letters :: string where
  "lower_letters = ''abcdefghijklmnopqrstuvwxyz''"

definition toLowerCase_char :: "char \<Rightarrow> char" where
  "toLowerCase_char c =
     (case map_of (zip upper_letters lower_letters) c of Some d \<Rightarrow> d | None \<Rightarrow> c)"

definition toUpperCase_char :: "char \<Rightarrow> char" where
  "toUpperCase_char c =
     (case map_of (zip lower_letters upper_letters) c of Some d \<Rightarrow> d | None \<Rightarrow> c)"

definition toLowerCase :: "string \<Rightarrow> string" where
  "toLowerCase s = map toLowerCase_char s"

definition toUpperCase :: "string \<Rightarrow> string" where
  "toUpperCase s = map toUpperCase_char s"

text \<open>\<^verbatim>\<open>s.endsWith(t)\<close>, \<^verbatim>\<open>s.startsWith(t)\<close> and \<^verbatim>\<open>s.includes(t)\<close>.\<close>

definition endsWith :: "string \<Rightarrow> string \<Rightarrow> bool" where
  "endsWith s t = (length t \<le> length s \<and> drop (length s - length t) s = t)"

definition startsWith :: "string \<Rightarrow> string \<Rightarrow> bool" where
  "startsWith s t = (take (length t) s = t)"

fun includes_str :: "string \<Rightarrow> string \<Rightarrow> bool" where
  "includes_str [] t = (t = [])"
| "includes_str (c # cs) t = (startsWith (c # cs) t \<or> includes_str cs t)"

text \<open>The white space of \<^verbatim>\<open>\s\<close> and of \<^verbatim>\<open>s.trim()\<close>, among the ASCII characters.\<close>

definition is_space :: "char \<Rightarrow> bool" where
  "is_space c = (c = CHR '' '' \<or> c = CHR 0x09 \<or> c = CHR 0x0A \<or> c = CHR 0x0B
                 \<or> c = CHR 0x0C \<or> c = CHR 0x0D)"

definition trim :: "string \<Rightarrow> string" where
  "trim s = rev (dropWhile is_space (rev (dropWhile is_space s)))"

text \<open>\<^verbatim>\<open>s.split(sep)\<close> for a separator of one character: the empty string splits
  into one empty piece.\<close>

fun split_char :: "char \<Rightarrow> string \<Rightarrow> string list" where
  "split_char sep [] = [[]]"
| "split_char sep (c # cs) =
     (if c = sep then [] # split_char sep cs
      else (case split_char sep cs of
              [] \<Rightarrow> [[c]]
            | p # ps \<Rightarrow> (c # p) # ps))"

text \<open>\<^verbatim>\<open>parts.join(sep)\<close>.\<close>

fun join :: "string \<Rightarrow> string list \<Rightarrow> string" where
  "join sep [] = []"
| "join sep [p] = p"
| "join sep (p # q # ps) = p @ sep @ join sep (q # ps)"

text \<open>The decimal text of a counter inside a template literal.\<close>

definition digit_char :: "nat \<Rightarrow> char" where
  "digit_char d = ''0123456789'' ! d"

fun show_nat :: "nat \<Rightarrow> string" where
  "show_nat n = (if n < 10 then [digit_char n] else show_nat (n div 10) @ [digit_char (n mod 10)])"

declare show_nat.simps [simp del]

text \<open>\<^verbatim>\<open>s.replace(/_id$/i, "")\<close>.\<close>

definition strip_id_suffix :: "string \<Rightarrow> string" where
  "strip_id_suffix s =
     (if endsWith (toLowerCase s) ''_id'' then take (length s - 3) s else s)"

subsection \<open>Case conversion of identifiers\<close>

definition capitalize_word :: "string \<Rightarrow> string" where
  "capitalize_word w =
     (case w of [] \<Rightarrow> [] | c # cs \<Rightarrow> toUpperCase_char c # toLowerCase cs)"

definition toPascalCase :: "string \<Rightarrow> string" where
  "toPascalCase str = concat (map capitalize_word (split_char (CHR ''_'') str))"

definition toCamelCase :: "string \<Rightarrow> string" where
  "toCamelCase str =
     (case toPascalCase str of [] \<Rightarrow> [] | c # cs \<Rightarrow> toLowerCase_char c # cs)"

subsection \<open>Pluralization\<close>

text \<open>\<^verbatim>\<open>/[aeiou]y$/.test(lower)\<close>: the last character is \<open>y\<close> and the one before
  it is one of the five vowels.\<close>

definition vowel_then_y_at_end :: "string \<Rightarrow> bool" where
  "vowel_then_y_at_end lower =
     (case rev lower of
        y # v # _ \<Rightarrow> y = CHR ''y'' \<and> v \<in> set ''aeiou''
      | _ \<Rightarrow> False)"

definition pluralize :: "string \<Rightarrow> string" where
  "pluralize word =
     (let lower = toLowerCase word in
      if endsWith lower ''s'' then word
      else if endsWith lower ''sh'' \<or> endsWith lower ''ch'' \<or> endsWith lower ''x''
              \<or> endsWith lower ''z''
        then word @ ''es''
      else if endsWith lower ''y'' \<and> \<not> vowel_then_y_at_end lower
        then butlast word @ ''ies''
      else word @ ''s'')"


subsection \<open>Numbered fallback names\<close>

lemma show_nat_nonempty: "show_nat n \<noteq> []"
  by (subst show_nat.simps) simp

lemma digit_char_inj: "a < 10 \<Longrightarrow> b < 10 \<Longrightarrow> digit_char a = digit_char b \<Longrightarrow> a = b"
proof -
  assume a: "a < 10" and b: "b < 10" and e: "digit_char a = digit_char b"
  have d: "distinct ''0123456789''" by simp
  have l: "length ''0123456789'' = 10" by simp
  from a have a': "a < length ''0123456789''" by simp
  from b have b': "b < length ''0123456789''" by simp
  from e have "''0123456789'' ! a = ''0123456789'' ! b" by (simp only: digit_char_def)
  with nth_eq_iff_index_eq [OF d a' b'] show ?thesis by blast
qed

lemma show_nat_inj: "show_nat n = show_nat m \<Longrightarrow> n = m"
proof (induction n arbitrary: m rule: show_nat.induct)
  case (1 n)
  show ?case
  proof (cases "n < 10")
    case True
    note n = this
    show ?thesis
    proof (cases "m < 10")
      case True
      with n "1.prems" show ?thesis
        by (simp add: show_nat.simps [of n] show_nat.simps [of m] digit_char_inj)
    next
      case False
      with n "1.prems" show_nat_nonempty [of "m div 10"] show ?thesis
        by (simp add: show_nat.simps [of n] show_nat.simps [of m])
    qed
  next
    case False
    note n = this
    show ?thesis
    proof (cases "m < 10")
      case True
      with n "1.prems" show_nat_nonempty [of "n div 10"] show ?thesis
        by (simp add: show_nat.simps [of n] show_nat.simps [of m])
    next
      case False
      with n "1.prems" have e: "show_nat (n div 10) = show_nat (m div 10)"
        and d: "digit_char (n mod 10) = digit_char (m mod 10)"
        by (simp_all add: show_nat.simps [of n] show_nat.simps [of m])
      from "1.IH" [OF n e] have q: "n div 10 = m div 10" .
      from d have r: "n mod 10 = m mod 10" by (intro digit_char_inj) simp_all
      from q r show ?thesis by (metis div_mult_mod_eq)
    qed
  qed
qed

lemma finite_numbered: "finite {k. c \<le> k \<and> pre @ show_nat k \<in> set names}"
proof -
  have "inj (\<lambda>k. pre @ show_nat k)" by (auto simp: inj_def dest: show_nat_inj)
  then have "finite ((\<lambda>k. pre @ show_nat k) -` set names)" by (intro finite_vimageI) simp_all
  then show ?thesis by (rule rev_finite_subset) auto
qed

text \<open>
  Both numbering loops of the generator have the shape
  \<^verbatim>\<open>while (names.has(uniqueName)) { uniqueName = `${pre}${counter}`; counter++; }\<close>.
  The loop state is the pair of \<^verbatim>\<open>uniqueName\<close> and \<^verbatim>\<open>counter\<close>. It ends
  because the names are finitely many and the numbered names are pairwise different.
\<close>

function numbered_loop :: "string \<Rightarrow> string list \<Rightarrow> string \<Rightarrow> nat \<Rightarrow> string" where
  "numbered_loop pre names uniqueName counter =
     (if uniqueName \<in> set names
      then numbered_loop pre names (pre @ show_nat counter) (counter + 1)
      else uniqueName)"
  by pat_completeness auto

termination
proof (relation "measure (\<lambda>(pre, names, u, c).
          2 * card {k. c \<le> k \<and> pre @ show_nat k \<in> set names} + (if u \<in> set names then 1 else 0))")
  show "wf (measure (\<lambda>(pre, names, u, c).
          2 * card {k. c \<le> k \<and> pre @ show_nat k \<in> set names} + (if u \<in> set names then 1 else 0)))"
    by simp
next
  fix pre :: string and names :: "string list" and uniqueName :: string and counter :: nat
  assume u: "uniqueName \<in> set names"
  let ?S = "\<lambda>c. {k. c \<le> k \<and> pre @ show_nat k \<in> set names}"
  have sub: "?S (counter + 1) \<subseteq> ?S counter" by auto
  have le: "card (?S (counter + 1)) \<le> card (?S counter)"
    by (rule card_mono [OF finite_numbered sub])
  have lt: "card (?S (counter + 1)) < card (?S counter)" if "pre @ show_nat counter \<in> set names"
  proof (rule psubset_card_mono [OF finite_numbered])
    from that have "counter \<in> ?S counter" "counter \<notin> ?S (counter + 1)" by auto
    with sub show "?S (counter + 1) \<subset> ?S counter" by blast
  qed
  show "((pre, names, pre @ show_nat counter, counter + 1), (pre, names, uniqueName, counter))
        \<in> measure (\<lambda>(pre, names, u, c).
          2 * card {k. c \<le> k \<and> pre @ show_nat k \<in> set names} + (if u \<in> set names then 1 else 0))"
    using u le lt by auto
qed

declare numbered_loop.simps [simp del]

subsection \<open>The data model (\<^verbatim>\<open>types\<close>)\<close>

record SQLColumn =
  c_name :: string
  c_type :: string
  nullable :: bool
  defaultValue :: "string option"
  isPrimaryKey :: bool
  isUnique :: bool
  c_length :: "nat option"
  isEnum :: bool
  c_comment :: "string option"

datatype constraint_type = PRIMARY_KEY | FOREIGN_KEY | UNIQUE | CHECK

record SQLConstraint =
  k_type :: constraint_type
  k_columns :: "string list"
  referencedTable :: "string option"
  referencedColumns :: "string list option"

record SQLIndex =
  i_name :: "string option"
  i_columns :: "string list"
  unique :: bool
  using_method :: "string option"

record SQLTable =
  t_name :: string
  t_columns :: "SQLColumn list"
  constraints :: "SQLConstraint list"
  indexes :: "SQLIndex list"
  t_comment :: "string option"

record SQLEnum =
  se_name :: string
  se_values :: "string list"

record PrismaField =
  f_name :: string
  f_type :: string
  f_attributes :: "string list"
  isOptional :: bool
  isArray :: bool
  f_comment :: "string option"

record PrismaModel =
  m_name :: string
  m_fields :: "PrismaField list"
  m_attributes :: "string list"
  m_comment :: "string option"

record PrismaEnum =
  e_name :: string
  e_values :: "string list"

datatype error = TypeError

text \<open>A value used as a condition: a string that is present and not empty.\<close>

definition truthy :: "string option \<Rightarrow> bool" where
  "truthy v = (case v of None \<Rightarrow> False | Some s \<Rightarrow> s \<noteq> [])"

text \<open>\<^verbatim>\<open>xs[i]\<close> (out of range: \<^verbatim>\<open>undefined\<close>) and \<^verbatim>\<open>xs.findIndex(p)\<close>
  (\<open>None\<close> for \<open>-1\<close>).\<close>

definition js_nth :: "'a list \<Rightarrow> nat \<Rightarrow> 'a option" where
  "js_nth xs i = (if i < length xs then Some (xs ! i) else None)"

definition js_last :: "'a list \<Rightarrow> 'a option" where
  "js_last xs = (if xs = [] then None else Some (xs ! (length xs - 1)))"

fun findIndex :: "('a \<Rightarrow> bool) \<Rightarrow> 'a list \<Rightarrow> nat option" where
  "findIndex p [] = None"
| "findIndex p (x # xs) =
     (if p x then Some 0 else map_option Suc (findIndex p xs))"


subsection \<open>Naming: column selection, context, relation identifiers\<close>

definition selectNamingColumn :: "SQLConstraint \<Rightarrow> string option" where
  "selectNamingColumn constraint =
     (case referencedColumns constraint of
        None \<Rightarrow> js_nth (k_columns constraint) 0
      | Some refs \<Rightarrow>
          if length (k_columns constraint) = 1 then js_nth (k_columns constraint) 0
          else (case findIndex (\<lambda>col. toLowerCase col = ''id'') refs of
                  Some idIndex \<Rightarrow>
                    if idIndex < length (k_columns constraint)
                    then js_nth (k_columns constraint) idIndex
                    else js_last (k_columns constraint)
                | None \<Rightarrow> js_last (k_columns constraint)))"

definition extractForeignKeyContext :: "string \<Rightarrow> string" where
  "extractForeignKeyContext fkColumn =
     (let cleaned = strip_id_suffix fkColumn;
          parts = filter (\<lambda>p. p \<noteq> []) (split_char (CHR ''_'') cleaned)
      in if length parts = 1 then parts ! 0 else join ''_'' parts)"

definition shouldIncludeContext :: "string \<Rightarrow> string \<Rightarrow> bool" where
  "shouldIncludeContext fkContext tableName =
     (let lowerContext = toLowerCase fkContext;
          lowerTable = toLowerCase tableName
      in if lowerContext = ''id'' \<or> lowerContext = lowerTable then False else True)"

text \<open>The set of used relation identifiers is a list of the names added so far; the
  function returns the identifier and the extended set.\<close>

definition generateDescriptiveRelationName ::
  "string \<Rightarrow> string \<Rightarrow> string \<Rightarrow> string list \<Rightarrow> string \<times> string list" where
  "generateDescriptiveRelationName fromTable toTable fkColumn usedNames =
     (let fromTablePascal = toPascalCase fromTable;
          toTablePascal = toPascalCase toTable;
          fkContext = extractForeignKeyContext fkColumn;
          contextPascal = toPascalCase fkContext;
          baseName = (if shouldIncludeContext fkContext fromTable
                      then fromTablePascal @ ''To'' @ toTablePascal @ ''_'' @ contextPascal
                      else fromTablePascal @ ''To'' @ toTablePascal);
          uniqueName = numbered_loop (baseName @ ''_'') usedNames baseName 2
      in (uniqueName, usedNames @ [uniqueName]))"

subsection \<open>Naming: field names\<close>

definition ensureUniqueFieldName :: "string \<Rightarrow> PrismaModel \<Rightarrow> string \<Rightarrow> string \<Rightarrow> string" where
  "ensureUniqueFieldName baseName model fkColumn sourceTable =
     (let existingNames = map f_name (m_fields model) in
      if baseName \<notin> set existingNames then baseName
      else let fullContext = toCamelCase (strip_id_suffix fkColumn) in
      if fullContext \<noteq> baseName \<and> fullContext \<notin> set existingNames then fullContext
      else let withSourcePrefix = toCamelCase sourceTable @ toPascalCase baseName in
      if withSourcePrefix \<notin> set existingNames then withSourcePrefix
      else let fullColumnName = toCamelCase fkColumn in
      if fullColumnName \<notin> set existingNames then fullColumnName
      else let lastResort = toCamelCase (sourceTable @ ''_'' @ strip_id_suffix fkColumn) in
      if lastResort \<notin> set existingNames then lastResort
      else numbered_loop lastResort existingNames (lastResort @ show_nat 2) 2)"

definition extractRelationFieldName :: "string \<Rightarrow> string \<Rightarrow> string" where
  "extractRelationFieldName fkColumn targetTable =
     (if toLowerCase fkColumn = ''id'' then toCamelCase targetTable
      else let columnBase = strip_id_suffix fkColumn in
        if toLowerCase columnBase = toLowerCase targetTable then toCamelCase targetTable
        else toCamelCase columnBase)"

definition isRelationOptional :: "SQLConstraint \<Rightarrow> SQLTable \<Rightarrow> bool" where
  "isRelationOptional constraint table =
     list_ex (\<lambda>colName.
        case find (\<lambda>col. c_name col = colName) (t_columns table) of
          None \<Rightarrow> False
        | Some column \<Rightarrow> nullable column) (k_columns constraint)"

definition dq :: string where
  "dq = [CHR 0x22]"

definition createRelationField ::
  "SQLConstraint \<Rightarrow> SQLTable \<Rightarrow> string \<Rightarrow> PrismaModel \<Rightarrow> string \<Rightarrow> PrismaField option" where
  "createRelationField constraint table relationName model namingColumn =
     (case (referencedTable constraint, referencedColumns constraint) of
        (Some refTable, Some refColumns) \<Rightarrow>
          if refTable = [] \<or> k_columns constraint = [] then None
          else
            let referencedModelName = toPascalCase refTable;
                baseFieldName = extractRelationFieldName namingColumn refTable;
                fieldName = ensureUniqueFieldName baseFieldName model namingColumn (t_name table);
                foreignKeyFields = map toCamelCase (k_columns constraint);
                referencedFields = map toCamelCase refColumns
            in Some \<lparr> f_name = fieldName,
                      f_type = referencedModelName,
                      f_attributes =
                        [''@relation('' @ dq @ relationName @ dq @ '', fields: [''
                           @ join '', '' foreignKeyFields @ ''], references: [''
                           @ join '', '' referencedFields @ ''])''],
                      isOptional = isRelationOptional constraint table,
                      isArray = False,
                      f_comment = None \<rparr>
      | _ \<Rightarrow> None)"

definition createBackRelationField ::
  "SQLConstraint \<Rightarrow> SQLTable \<Rightarrow> string \<Rightarrow> PrismaModel \<Rightarrow> string \<Rightarrow> PrismaField option" where
  "createBackRelationField constraint table relationName referencedModel namingColumn =
     (if \<not> truthy (referencedTable constraint) \<or> k_columns constraint = [] then None
      else
        let sourceModelName = toPascalCase (t_name table);
            fkContext = extractForeignKeyContext namingColumn;
            baseBackName = pluralize (toCamelCase (t_name table));
            baseName = (if shouldIncludeContext fkContext (t_name table)
                        then baseBackName @ toPascalCase fkContext
                        else baseBackName);
            fieldName = ensureUniqueFieldName baseName referencedModel namingColumn (t_name table)
        in Some \<lparr> f_name = fieldName,
                  f_type = sourceModelName,
                  f_attributes = [''@relation('' @ dq @ relationName @ dq @ '')''],
                  isOptional = False,
                  isArray = True,
                  f_comment = None \<rparr>)"


subsection \<open>Scalar fields and basic models\<close>

definition mapSQLTypeToPrismaType :: "string \<Rightarrow> PrismaEnum list \<Rightarrow> string" where
  "mapSQLTypeToPrismaType sqlType enums =
     (let expectedEnumName = toPascalCase sqlType in
      case find (\<lambda>enumDef. e_name enumDef = expectedEnumName) enums of
        Some matchingEnum \<Rightarrow> e_name matchingEnum
      | None \<Rightarrow>
          let ty = toUpperCase sqlType in
          if ty \<in> set [''SERIAL'', ''BIGSERIAL'', ''INTEGER'', ''INT'', ''BIGINT''] then ''Int''
          else if ty \<in> set [''VARCHAR'', ''TEXT'', ''CHAR''] then ''String''
          else if ty \<in> set [''BOOLEAN'', ''BOOL''] then ''Boolean''
          else if ty \<in> set [''TIMESTAMP'', ''TIMESTAMPTZ'', ''DATE'', ''TIME''] then ''DateTime''
          else if ty \<in> set [''DECIMAL'', ''NUMERIC'', ''FLOAT'', ''DOUBLE'', ''REAL''] then ''Float''
          else if ty = ''UUID'' then ''String''
          else if ty \<in> set [''JSON'', ''JSONB''] then ''Json''
          else ''String'')"

text \<open>\<^verbatim>\<open>s.replace(/^\(|\)$/g, "")\<close>.\<close>

definition strip_outer_parens :: "string \<Rightarrow> string" where
  "strip_outer_parens s =
     (let s1 = (if startsWith s ''('' then drop 1 s else s)
      in if endsWith s1 '')'' then butlast s1 else s1)"

text \<open>
  \<^verbatim>\<open>!isNaN(Number(text))\<close>: the text, without the white space around it, is empty, a
  binary, octal or hexadecimal integer literal, or a decimal literal with an optional
  sign (\<^verbatim>\<open>Infinity\<close>, or digits with an optional fraction and exponent).
\<close>

definition is_digit :: "char \<Rightarrow> bool" where
  "is_digit c = (c \<in> set ''0123456789'')"

definition exponent_part :: "string \<Rightarrow> bool" where
  "exponent_part r =
     (case r of
        [] \<Rightarrow> True
      | e # r1 \<Rightarrow>
          (e = CHR ''e'' \<or> e = CHR ''E'')
          \<and> (let r2 = (case r1 of
                          [] \<Rightarrow> []
                        | c # cs \<Rightarrow> if c = CHR ''+'' \<or> c = CHR ''-'' then cs else r1)
             in r2 \<noteq> [] \<and> list_all is_digit r2))"

definition unsigned_decimal :: "string \<Rightarrow> bool" where
  "unsigned_decimal u =
     (let intPart = takeWhile is_digit u;
          r1 = dropWhile is_digit u
      in case r1 of
           c # r2 \<Rightarrow>
             if c = CHR ''.''
             then (intPart \<noteq> [] \<or> takeWhile is_digit r2 \<noteq> [])
                  \<and> exponent_part (dropWhile is_digit r2)
             else intPart \<noteq> [] \<and> exponent_part r1
         | [] \<Rightarrow> intPart \<noteq> [])"

definition non_decimal_integer :: "string \<Rightarrow> bool" where
  "non_decimal_integer t =
     (case t of
        z # x # ds \<Rightarrow>
          z = CHR ''0'' \<and> ds \<noteq> []
          \<and> ((x \<in> set ''bB'' \<and> list_all (\<lambda>d. d \<in> set ''01'') ds)
             \<or> (x \<in> set ''oO'' \<and> list_all (\<lambda>d. d \<in> set ''01234567'') ds)
             \<or> (x \<in> set ''xX'' \<and> list_all (\<lambda>d. d \<in> set ''0123456789abcdefABCDEF'') ds))
      | _ \<Rightarrow> False)"

definition isNumber :: "string \<Rightarrow> bool" where
  "isNumber text =
     (let t = trim text;
          u = (case t of
                 [] \<Rightarrow> []
               | c # cs \<Rightarrow> if c = CHR ''+'' \<or> c = CHR ''-'' then cs else t)
      in t = [] \<or> non_decimal_integer t \<or> u = ''Infinity'' \<or> unsigned_decimal u)"

definition defaultAttribute :: "string \<Rightarrow> string" where
  "defaultAttribute dv =
     (let upperDefault = toUpperCase dv in
      if upperDefault = ''CURRENT_TIMESTAMP'' \<or> upperDefault = ''NOW()''
           \<or> upperDefault = ''(NOW())''
        then ''@default(now())''
      else if includes_str dv ''gen_random_uuid''
        then ''@default(dbgenerated('' @ dq @ ''gen_random_uuid()'' @ dq @ ''))''
      else if dv = ''true'' \<or> dv = ''false'' then ''@default('' @ dv @ '')''
      else if isNumber dv then ''@default('' @ dv @ '')''
      else if includes_str upperDefault ''NOW()'' \<or> includes_str upperDefault ''CURRENT_TIMESTAMP''
        then ''@default(now())''
      else if includes_str dv ''::json'' \<or> includes_str dv ''::jsonb''
        then ''@default(dbgenerated('' @ dq @ strip_outer_parens dv @ dq @ ''))''
      else ''@default('' @ dq @ dv @ dq @ '')'')"

definition convertColumnToField ::
  "SQLColumn \<Rightarrow> SQLTable \<Rightarrow> PrismaEnum list \<Rightarrow> PrismaField" where
  "convertColumnToField column table enums =
     (let name = toCamelCase (c_name column);
          type = mapSQLTypeToPrismaType (c_type column) (if isEnum column then enums else []);
          attributes =
            (if isPrimaryKey column then
               (if c_type column = ''SERIAL'' \<or> c_type column = ''BIGSERIAL''
                  then [''@id @default(autoincrement())'']
                else if c_type column = ''UUID''
                        \<and> (case defaultValue column of None \<Rightarrow> False
                            | Some dv \<Rightarrow> includes_str dv ''gen_random_uuid'')
                  then [''@id @default(dbgenerated('' @ dq @ ''gen_random_uuid()'' @ dq @ ''))'']
                else [''@id''])
             else [])
            @ (if isUnique column \<and> \<not> isPrimaryKey column then [''@unique''] else [])
            @ (case defaultValue column of
                 None \<Rightarrow> []
               | Some dv \<Rightarrow>
                   if dv \<noteq> [] \<and> \<not> isPrimaryKey column then [defaultAttribute dv]
                   else [])
            @ (if includes_str (c_type column) ''TIMESTAMP''
                  \<and> includes_str (toLowerCase (c_name column)) ''updated''
               then [''@updatedAt''] else [])
            @ (if c_name column \<noteq> name then [''@map('' @ dq @ c_name column @ dq @ '')''] else [])
            @ (if c_type column = ''UUID'' then [''@db.Uuid''] else [])
            @ (if c_type column = ''JSONB'' then [''@db.JsonB'']
               else if c_type column = ''JSON'' then [''@db.Json''] else [])
      in \<lparr> f_name = name,
           f_type = type,
           f_attributes = attributes,
           isOptional = (nullable column \<and> \<not> isPrimaryKey column),
           isArray = False,
           f_comment = c_comment column \<rparr>)"

definition indexAttribute :: "SQLIndex \<Rightarrow> string" where
  "indexAttribute index =
     (let indexColumns = map toCamelCase (i_columns index) in
      if unique index then ''@@unique(['' @ join '', '' indexColumns @ ''])''
      else ''@@index(['' @ join '', '' indexColumns @ ''])'')"

definition createBasicModel ::
  "SQLTable \<Rightarrow> PrismaEnum list \<Rightarrow> PrismaModel" where
  "createBasicModel table enums =
     (let modelName = toPascalCase (t_name table);
          flds = map (\<lambda>column. convertColumnToField column table enums) (t_columns table);
          attributes =
            map indexAttribute (indexes table)
            @ (if t_name table \<noteq> toLowerCase modelName
               then [''@@map('' @ dq @ t_name table @ dq @ '')''] else [])
      in \<lparr> m_name = modelName,
           m_fields = flds,
           m_attributes = attributes,
           m_comment = t_comment table \<rparr>)"

definition convertEnumsToPrismaEnums :: "SQLEnum list \<Rightarrow> PrismaEnum list" where
  "convertEnumsToPrismaEnums enums =
     map (\<lambda>enumDef. \<lparr> e_name = toPascalCase (se_name enumDef), e_values = se_values enumDef \<rparr>) enums"

subsection \<open>The two passes of \<^verbatim>\<open>convertTablesToModels\<close>\<close>

text \<open>
  The second pass mutates the models it found by name and the set of used relation
  identifiers. The state is the list of models and that set; a model object is the
  position of the model in the list, which no step changes.
\<close>

record conv_state =
  models :: "PrismaModel list"
  usedRelationNames :: "string list"

definition push_field :: "nat \<Rightarrow> PrismaField \<Rightarrow> PrismaModel list \<Rightarrow> PrismaModel list" where
  "push_field i field ms = ms[i := (ms ! i)\<lparr> m_fields := m_fields (ms ! i) @ [field] \<rparr>]"

text \<open>The body of the loop over the constraints of one table; \<open>mi\<close> is the table's own
  model. A constraint without columns has no naming column, and taking the context of
  \<^verbatim>\<open>undefined\<close> raises.\<close>

definition process_constraint ::
  "SQLTable \<Rightarrow> nat \<Rightarrow> conv_state \<Rightarrow> SQLConstraint \<Rightarrow> error + conv_state" where
  "process_constraint table mi st constraint =
     (case referencedTable constraint of
        None \<Rightarrow> Inr st
      | Some refTable \<Rightarrow>
          if k_type constraint \<noteq> FOREIGN_KEY \<or> refTable = [] then Inr st
          else
            (case selectNamingColumn constraint of
               None \<Rightarrow> Inl TypeError
             | Some namingColumn \<Rightarrow>
                 let (relationName, used) =
                       generateDescriptiveRelationName (t_name table) refTable namingColumn
                         (usedRelationNames st);
                     ms1 = (case createRelationField constraint table relationName
                                   (models st ! mi) namingColumn of
                              None \<Rightarrow> models st
                            | Some relationField \<Rightarrow> push_field mi relationField (models st));
                     ms2 = (case findIndex (\<lambda>m. m_name m = toPascalCase refTable) ms1 of
                              None \<Rightarrow> ms1
                            | Some ri \<Rightarrow>
                                (case createBackRelationField constraint table relationName
                                        (ms1 ! ri) namingColumn of
                                   None \<Rightarrow> ms1
                                 | Some backRelationField \<Rightarrow> push_field ri backRelationField ms1))
                 in Inr \<lparr> models = ms2, usedRelationNames = used \<rparr>))"

fun process_constraints ::
  "SQLTable \<Rightarrow> nat \<Rightarrow> conv_state \<Rightarrow> SQLConstraint list \<Rightarrow> error + conv_state" where
  "process_constraints table mi st [] = Inr st"
| "process_constraints table mi st (c # cs) =
     (case process_constraint table mi st c of
        Inl e \<Rightarrow> Inl e
      | Inr st' \<Rightarrow> process_constraints table mi st' cs)"

text \<open>The lookup of the table's own model is asserted to succeed in the source (the
  first pass made a model of that name); a failed lookup is the error its dereference
  would raise.\<close>

definition process_table :: "conv_state \<Rightarrow> SQLTable \<Rightarrow> error + conv_state" where
  "process_table st table =
     (case findIndex (\<lambda>m. m_name m = toPascalCase (t_name table)) (models st) of
        None \<Rightarrow> Inl TypeError
      | Some mi \<Rightarrow> process_constraints table mi st (constraints table))"

fun process_tables :: "conv_state \<Rightarrow> SQLTable list \<Rightarrow> error + conv_state" where
  "process_tables st [] = Inr st"
| "process_tables st (t # ts) =
     (case process_table st t of
        Inl e \<Rightarrow> Inl e
      | Inr st' \<Rightarrow> process_tables st' ts)"

definition convertTablesToModels ::
  "SQLTable list \<Rightarrow> PrismaEnum list \<Rightarrow> error + PrismaModel list" where
  "convertTablesToModels tables enums =
     (case process_tables
             \<lparr> models = map (\<lambda>table. createBasicModel table enums) tables,
               usedRelationNames = [] \<rparr> tables of
        Inl e \<Rightarrow> Inl e
      | Inr st \<Rightarrow> Inr (models st))"


subsection \<open>The parser: cleaning the text and cutting it into statements\<close>









subsection \<open>The parser: the passes over the statements\<close>

text \<open>
  What the pattern of \<^verbatim>\<open>parseAlterTableForeignKey\<close> captured from a statement it
  recognizes: the altered table, the foreign-key column, the referenced table and the
  referenced column (each the quoted or the unquoted alternative of its group).
\<close>

record alter_fk_match =
  alterTableName :: string
  foreignKeyColumn :: string
  referencedTableName :: string
  referencedColumn :: string

definition parseAlterTableForeignKey :: "alter_fk_match option \<Rightarrow> SQLTable list \<Rightarrow> SQLTable list" where
  "parseAlterTableForeignKey fkMatch tables =
     (case fkMatch of
        None \<Rightarrow> tables
      | Some m \<Rightarrow>
          (case findIndex (\<lambda>t. t_name t = alterTableName m) tables of
             None \<Rightarrow> tables
           | Some i \<Rightarrow>
               let constraint = \<lparr> k_type = FOREIGN_KEY,
                                  k_columns = [foreignKeyColumn m],
                                  referencedTable = Some (referencedTableName m),
                                  referencedColumns = Some [referencedColumn m] \<rparr>
               in tables[i := (tables ! i)\<lparr> constraints := constraints (tables ! i) @ [constraint] \<rparr>]))"










section \<open>Properties\<close>

subsection \<open>Shared facts about strings\<close>

lemmas case_defs = toLowerCase_def toUpperCase_def toLowerCase_char_def toUpperCase_char_def
  upper_letters_def lower_letters_def

lemma toLowerCase_append: "toLowerCase (a @ b) = toLowerCase a @ toLowerCase b"
  by (simp add: toLowerCase_def)

subsection \<open>Pluralization (C9)\<close>

lemma pluralize_ends_in_s: "endsWith (toLowerCase (pluralize w)) ''s''"
proof -
  have l: "toLowerCase ''es'' = ''es''" "toLowerCase ''ies'' = ''ies''" "toLowerCase ''s'' = ''s''"
    by (simp_all add: case_defs)
  have e: "endsWith (a @ ''es'') ''s''" "endsWith (a @ ''ies'') ''s''" "endsWith (a @ ''s'') ''s''" for a
    by (simp_all add: endsWith_def)
  show ?thesis
    unfolding pluralize_def Let_def
    by (simp add: toLowerCase_append l e)
qed

lemma pluralize_fixed: "endsWith (toLowerCase w) ''s'' \<Longrightarrow> pluralize w = w"
  by (simp add: pluralize_def)

lemma pluralize_idem: "pluralize (pluralize w) = pluralize w"
  by (rule pluralize_fixed [OF pluralize_ends_in_s])

text \<open>
  The rule set in the words of the specification, on the lowercased word as in the
  source: a consonant is a letter other than the five vowels, and the third rule asks for
  one before the final \<open>y\<close>.
\<close>

definition is_consonant :: "char \<Rightarrow> bool" where
  "is_consonant c = (c \<in> set lower_letters \<and> c \<notin> set ''aeiou'')"

definition pluralize_as_claimed :: "string \<Rightarrow> string" where
  "pluralize_as_claimed word =
     (let lower = toLowerCase word in
      if endsWith lower ''s'' then word
      else if endsWith lower ''sh'' \<or> endsWith lower ''ch'' \<or> endsWith lower ''x''
              \<or> endsWith lower ''z''
        then word @ ''es''
      else if (case rev lower of y # c # _ \<Rightarrow> y = CHR ''y'' \<and> is_consonant c | _ \<Rightarrow> False)
        then butlast word @ ''ies''
      else word @ ''s'')"

text \<open>
  The word \<open>y\<close> has no consonant before its final \<open>y\<close>, so the rule set as claimed
  appends \<open>s\<close>; the source only asks that no vowel precedes the \<open>y\<close> and produces
  \<open>ies\<close>.
\<close>

theorem pluralize_single_y_counterexample:
  "pluralize ''y'' = ''ies'' \<and> pluralize_as_claimed ''y'' = ''ys''"
  by (simp add: pluralize_def pluralize_as_claimed_def case_defs endsWith_def
      vowel_then_y_at_end_def)

text \<open>
  C9 (amended). On the lowercased word: a word ending in \<open>s\<close> is returned as it is; a
  word ending in \<open>sh\<close>, \<open>ch\<close>, \<open>x\<close> or \<open>z\<close> gets \<open>es\<close>; a final \<open>y\<close> that is
  not preceded by one of the vowels a, e, i, o, u is replaced by \<open>ies\<close>; every other
  word gets \<open>s\<close>. Pluralization is idempotent on every word, and \<open>posts\<close> stays
  \<open>posts\<close>.
\<close>

theorem pluralize_rules:
  "(endsWith (toLowerCase w) ''s'' \<longrightarrow> pluralize w = w)
   \<and> (\<not> endsWith (toLowerCase w) ''s''
        \<and> (endsWith (toLowerCase w) ''sh'' \<or> endsWith (toLowerCase w) ''ch''
            \<or> endsWith (toLowerCase w) ''x'' \<or> endsWith (toLowerCase w) ''z'')
       \<longrightarrow> pluralize w = w @ ''es'')
   \<and> (\<not> endsWith (toLowerCase w) ''s'' \<and> \<not> endsWith (toLowerCase w) ''sh''
        \<and> \<not> endsWith (toLowerCase w) ''ch'' \<and> \<not> endsWith (toLowerCase w) ''x''
        \<and> \<not> endsWith (toLowerCase w) ''z''
        \<and> endsWith (toLowerCase w) ''y'' \<and> \<not> vowel_then_y_at_end (toLowerCase w)
       \<longrightarrow> pluralize w = butlast w @ ''ies'')
   \<and> (\<not> endsWith (toLowerCase w) ''s'' \<and> \<not> endsWith (toLowerCase w) ''sh''
        \<and> \<not> endsWith (toLowerCase w) ''ch'' \<and> \<not> endsWith (toLowerCase w) ''x''
        \<and> \<not> endsWith (toLowerCase w) ''z''
        \<and> (\<not> endsWith (toLowerCase w) ''y'' \<or> vowel_then_y_at_end (toLowerCase w))
       \<longrightarrow> pluralize w = w @ ''s'')
   \<and> pluralize (pluralize w) = pluralize w
   \<and> pluralize ''posts'' = ''posts''"
proof -
  have p: "pluralize ''posts'' = ''posts''"
    by (simp add: pluralize_def case_defs endsWith_def)
  show ?thesis
    using p pluralize_idem [of w] by (simp add: pluralize_def Let_def)
qed

theorem pluralize_rules_witness:
  "pluralize ''buses'' = ''buses'' \<and> pluralize ''box'' = ''boxes''
   \<and> pluralize ''city'' = ''cities'' \<and> pluralize ''day'' = ''days''"
proof -
  have a: "endsWith (toLowerCase ''buses'') ''s''"
    by (simp add: case_defs endsWith_def)
  have b: "\<not> endsWith (toLowerCase ''box'') ''s'' \<and> endsWith (toLowerCase ''box'') ''x''"
    by (simp add: case_defs endsWith_def)
  have c: "\<not> endsWith (toLowerCase ''city'') ''s'' \<and> \<not> endsWith (toLowerCase ''city'') ''sh''
        \<and> \<not> endsWith (toLowerCase ''city'') ''ch'' \<and> \<not> endsWith (toLowerCase ''city'') ''x''
        \<and> \<not> endsWith (toLowerCase ''city'') ''z''
        \<and> endsWith (toLowerCase ''city'') ''y'' \<and> \<not> vowel_then_y_at_end (toLowerCase ''city'')"
    by (simp add: case_defs endsWith_def vowel_then_y_at_end_def)
  have d: "\<not> endsWith (toLowerCase ''day'') ''s'' \<and> \<not> endsWith (toLowerCase ''day'') ''sh''
        \<and> \<not> endsWith (toLowerCase ''day'') ''ch'' \<and> \<not> endsWith (toLowerCase ''day'') ''x''
        \<and> \<not> endsWith (toLowerCase ''day'') ''z''
        \<and> vowel_then_y_at_end (toLowerCase ''day'')"
    by (simp add: case_defs endsWith_def vowel_then_y_at_end_def)
  from a pluralize_rules [of "''buses''"] have 1: "pluralize ''buses'' = ''buses''" by blast
  from b pluralize_rules [of "''box''"] have 2: "pluralize ''box'' = ''box'' @ ''es''" by blast
  from c pluralize_rules [of "''city''"] have 3: "pluralize ''city'' = butlast ''city'' @ ''ies''" by blast
  from d pluralize_rules [of "''day''"] have 4: "pluralize ''day'' = ''day'' @ ''s''" by blast
  from 1 2 3 4 show ?thesis by simp
qed


subsection \<open>Shared facts about lookups\<close>

lemma findIndex_Some_iff:
  "findIndex p xs = Some i \<longleftrightarrow> i < length xs \<and> p (xs ! i) \<and> (\<forall>j<i. \<not> p (xs ! j))"
proof (induction xs arbitrary: i)
  case Nil
  then show ?case by simp
next
  case (Cons x xs)
  show ?case
  proof (cases "p x")
    case True
    then show ?thesis by (cases i) auto
  next
    case False
    show ?thesis
    proof (cases i)
      case 0
      with False show ?thesis by auto
    next
      case (Suc k)
      have "(\<forall>j<Suc k. \<not> p ((x # xs) ! j)) \<longleftrightarrow> (\<forall>j<k. \<not> p (xs ! j))"
        using False by (auto simp: less_Suc_eq_0_disj)
      with Suc False Cons.IH [of k] show ?thesis by auto
    qed
  qed
qed

lemma findIndex_None_iff: "findIndex p xs = None \<longleftrightarrow> (\<forall>x\<in>set xs. \<not> p x)"
  by (induction xs) auto

lemma js_last_eq: "xs \<noteq> [] \<Longrightarrow> js_last xs = Some (last xs)"
  by (simp add: js_last_def last_conv_nth)


subsection \<open>The naming column (C2)\<close>

text \<open>The foreign-key constraint that the parser builds from a list of columns, a
  referenced table and a list of referenced columns.\<close>

definition foreignKey :: "string list \<Rightarrow> string \<Rightarrow> string list \<Rightarrow> SQLConstraint" where
  "foreignKey cols refTable refCols =
     \<lparr> k_type = FOREIGN_KEY, k_columns = cols, referencedTable = Some refTable,
       referencedColumns = Some refCols \<rparr>"

text \<open>
  The comparison with \<open>id\<close> ignores case and takes the first match: when the scoping
  column is itself called \<open>ID\<close>, the composite key \<open>(ID, author_id)\<close> that references
  \<open>(ID, id)\<close> is named after the scoping column.
\<close>

theorem selectNamingColumn_scope_counterexample:
  "selectNamingColumn (foreignKey [''ID'', ''author_id''] ''users'' [''ID'', ''id'']) = Some ''ID''"
  by (simp add: selectNamingColumn_def foreignKey_def js_nth_def case_defs)

text \<open>
  C2 (amended). For a foreign-key constraint with its list of referenced columns: with
  exactly one owning-side column, that column is the naming column; otherwise, if some
  referenced column is \<open>id\<close> (ignoring case), the naming column is the owning-side
  column at the first such position (the last owning-side column if the owning side has
  no such position); otherwise it is the last owning-side column. In particular the
  composite key \<open>(scope, business)\<close> that references \<open>(scope, id)\<close> is named after
  \<open>business\<close> whenever \<open>scope\<close> is not itself \<open>id\<close> (ignoring case).
\<close>

theorem selectNamingColumn_rule:
  assumes refs: "referencedColumns c = Some rs"
  shows "(length (k_columns c) = 1 \<longrightarrow> selectNamingColumn c = Some (k_columns c ! 0))
    \<and> (\<forall>i. length (k_columns c) \<noteq> 1 \<and> i < length rs \<and> toLowerCase (rs ! i) = ''id''
            \<and> (\<forall>j<i. toLowerCase (rs ! j) \<noteq> ''id'')
          \<longrightarrow> (i < length (k_columns c) \<longrightarrow> selectNamingColumn c = Some (k_columns c ! i))
              \<and> (length (k_columns c) \<le> i \<and> k_columns c \<noteq> []
                   \<longrightarrow> selectNamingColumn c = Some (last (k_columns c))))
    \<and> (length (k_columns c) \<noteq> 1 \<and> k_columns c \<noteq> [] \<and> (\<forall>r\<in>set rs. toLowerCase r \<noteq> ''id'')
          \<longrightarrow> selectNamingColumn c = Some (last (k_columns c)))
    \<and> (\<forall>scope business. k_columns c = [scope, business] \<and> rs = [scope, ''id'']
            \<and> toLowerCase scope \<noteq> ''id''
          \<longrightarrow> selectNamingColumn c = Some business)"
proof (intro conjI allI impI)
  assume "length (k_columns c) = 1"
  with refs show "selectNamingColumn c = Some (k_columns c ! 0)"
    by (simp add: selectNamingColumn_def js_nth_def)
next
  fix i
  assume h: "length (k_columns c) \<noteq> 1 \<and> i < length rs \<and> toLowerCase (rs ! i) = ''id''
            \<and> (\<forall>j<i. toLowerCase (rs ! j) \<noteq> ''id'')"
  then have f: "findIndex (\<lambda>col. toLowerCase col = ''id'') rs = Some i"
    by (simp add: findIndex_Some_iff)
  { assume "i < length (k_columns c)"
    with h f refs show "selectNamingColumn c = Some (k_columns c ! i)"
      by (simp add: selectNamingColumn_def js_nth_def) }
  { assume "length (k_columns c) \<le> i \<and> k_columns c \<noteq> []"
    with h f refs show "selectNamingColumn c = Some (last (k_columns c))"
      by (simp add: selectNamingColumn_def js_last_eq) }
next
  assume h: "length (k_columns c) \<noteq> 1 \<and> k_columns c \<noteq> [] \<and> (\<forall>r\<in>set rs. toLowerCase r \<noteq> ''id'')"
  then have "findIndex (\<lambda>col. toLowerCase col = ''id'') rs = None"
    by (simp add: findIndex_None_iff)
  with h refs show "selectNamingColumn c = Some (last (k_columns c))"
    by (simp add: selectNamingColumn_def js_last_eq)
next
  fix scope business
  assume h: "k_columns c = [scope, business] \<and> rs = [scope, ''id''] \<and> toLowerCase scope \<noteq> ''id''"
  have "toLowerCase ''id'' = ''id''" by (simp add: toLowerCase_def toLowerCase_char_def upper_letters_def lower_letters_def)
  with h refs show "selectNamingColumn c = Some business"
    by (simp add: selectNamingColumn_def js_nth_def)
qed

theorem selectNamingColumn_rule_witness:
  "selectNamingColumn (foreignKey [''author_id''] ''users'' [''id'']) = Some ''author_id''
   \<and> selectNamingColumn (foreignKey [''tenant_id'', ''author_id''] ''users'' [''tenant_id'', ''id''])
       = Some ''author_id''
   \<and> selectNamingColumn (foreignKey [''a'', ''b''] ''t'' [''x'', ''y'', ''id'']) = Some ''b''
   \<and> selectNamingColumn (foreignKey [''region'', ''code''] ''t'' [''region'', ''code'']) = Some ''code''"
proof -
  have low: "toLowerCase ''id'' = ''id''" "toLowerCase ''tenant_id'' \<noteq> ''id''"
      "toLowerCase ''x'' \<noteq> ''id''" "toLowerCase ''y'' \<noteq> ''id''"
      "toLowerCase ''region'' \<noteq> ''id''" "toLowerCase ''code'' \<noteq> ''id''"
    by (simp_all add: case_defs)
  have r: "referencedColumns (foreignKey cs t rs) = Some rs" for cs t rs
    by (simp add: foreignKey_def)
  have k: "k_columns (foreignKey cs t rs) = cs" for cs t rs
    by (simp add: foreignKey_def)
  from selectNamingColumn_rule [OF r, of "[''author_id'']" "''users''" "[''id'']"]
  have 1: "selectNamingColumn (foreignKey [''author_id''] ''users'' [''id'']) = Some ''author_id''"
    by (simp add: k)
  from selectNamingColumn_rule [OF r, of "[''tenant_id'', ''author_id'']" "''users''" "[''tenant_id'', ''id'']"]
  have "\<forall>scope business. [''tenant_id'', ''author_id''] = [scope, business]
            \<and> [''tenant_id'', ''id''] = [scope, ''id''] \<and> toLowerCase scope \<noteq> ''id''
          \<longrightarrow> selectNamingColumn (foreignKey [''tenant_id'', ''author_id''] ''users'' [''tenant_id'', ''id''])
               = Some business"
    unfolding k by blast
  with low have 2: "selectNamingColumn (foreignKey [''tenant_id'', ''author_id''] ''users'' [''tenant_id'', ''id''])
       = Some ''author_id''" by simp
  from selectNamingColumn_rule [OF r, of "[''a'', ''b'']" "''t''" "[''x'', ''y'', ''id'']",
      THEN conjunct2, THEN conjunct1, THEN spec, of 2] low
  have 3: "selectNamingColumn (foreignKey [''a'', ''b''] ''t'' [''x'', ''y'', ''id'']) = Some ''b''"
    by (simp add: k less_Suc_eq numeral_2_eq_2)
  from selectNamingColumn_rule [OF r, of "[''region'', ''code'']" "''t''" "[''region'', ''code'']"] low
  have 4: "selectNamingColumn (foreignKey [''region'', ''code''] ''t'' [''region'', ''code'']) = Some ''code''"
    by (simp add: k)
  from 1 2 3 4 show ?thesis by simp
qed


subsection \<open>The scenario of three foreign keys to one table (C1)\<close>

text \<open>The column that the parser builds for a definition without default value, and
  the two tables of the scenario: \<open>users(id)\<close>, and \<open>posts\<close> whose columns
  \<open>author_id\<close>, \<open>editor_id\<close> and \<open>reviewer_id\<close> each reference \<open>users(id)\<close>.\<close>

definition plainColumn :: "string \<Rightarrow> string \<Rightarrow> bool \<Rightarrow> bool \<Rightarrow> SQLColumn" where
  "plainColumn n t nl pk =
     \<lparr> c_name = n, c_type = t, nullable = nl, defaultValue = None, isPrimaryKey = pk,
       isUnique = pk, c_length = None, isEnum = False, c_comment = None \<rparr>"

definition users_table :: SQLTable where
  "users_table =
     \<lparr> t_name = ''users'', t_columns = [plainColumn ''id'' ''SERIAL'' False True],
       constraints = [], indexes = [], t_comment = None \<rparr>"

definition posts_table :: SQLTable where
  "posts_table =
     \<lparr> t_name = ''posts'',
       t_columns = [plainColumn ''id'' ''SERIAL'' False True,
                    plainColumn ''author_id'' ''INTEGER'' True False,
                    plainColumn ''editor_id'' ''INTEGER'' True False,
                    plainColumn ''reviewer_id'' ''INTEGER'' True False],
       constraints = [foreignKey [''author_id''] ''users'' [''id''],
                      foreignKey [''editor_id''] ''users'' [''id''],
                      foreignKey [''reviewer_id''] ''users'' [''id'']],
       indexes = [], t_comment = None \<rparr>"

text \<open>\<^verbatim>\<open>isRelationField\<close> of the source, and the name, type and attributes of the
  relation fields of a model.\<close>

definition isRelationField :: "PrismaField \<Rightarrow> bool" where
  "isRelationField field = list_ex (\<lambda>attr. includes_str attr ''@relation'') (f_attributes field)"

definition relationFields :: "PrismaModel \<Rightarrow> (string \<times> string \<times> string list) list" where
  "relationFields m =
     map (\<lambda>f. (f_name f, f_type f, f_attributes f)) (filter isRelationField (m_fields m))"

lemmas string_defs = toCamelCase_def toPascalCase_def capitalize_word_def case_defs
  endsWith_def startsWith_def strip_id_suffix_def

lemma scenario_names:
  "toPascalCase ''users'' = ''Users''" "toPascalCase ''posts'' = ''Posts''"
  "toPascalCase ''post'' = ''Post''"
  "toCamelCase ''users'' = ''users''" "toCamelCase ''posts'' = ''posts''"
  "toCamelCase ''post'' = ''post''"
  "toCamelCase ''id'' = ''id''" "toCamelCase ''author'' = ''author''"
  "toCamelCase ''author_id'' = ''authorId''" "toCamelCase ''editor_id'' = ''editorId''"
  "toCamelCase ''reviewer_id'' = ''reviewerId''"
  "toPascalCase ''author'' = ''Author''" "toPascalCase ''editor'' = ''Editor''"
  "toPascalCase ''reviewer'' = ''Reviewer''"
  "toLowerCase ''Users'' = ''users''" "toLowerCase ''Posts'' = ''posts''"
  "toLowerCase ''Post'' = ''post''" "toLowerCase ''id'' = ''id''"
  by (simp_all add: string_defs)

lemma scenario_types:
  "mapSQLTypeToPrismaType ''SERIAL'' [] = ''Int''" "mapSQLTypeToPrismaType ''INTEGER'' [] = ''Int''"
  by (simp_all add: mapSQLTypeToPrismaType_def case_defs)

lemma scenario_contexts:
  "extractForeignKeyContext ''author_id'' = ''author''"
  "extractForeignKeyContext ''editor_id'' = ''editor''"
  "extractForeignKeyContext ''reviewer_id'' = ''reviewer''"
  "shouldIncludeContext ''author'' ''posts''" "shouldIncludeContext ''editor'' ''posts''"
  "shouldIncludeContext ''reviewer'' ''posts''" "shouldIncludeContext ''author'' ''post''"
  "extractRelationFieldName ''author_id'' ''users'' = ''author''"
  "extractRelationFieldName ''editor_id'' ''users'' = ''editor''"
  "extractRelationFieldName ''reviewer_id'' ''users'' = ''reviewer''"
  "pluralize ''posts'' = ''posts''" "pluralize ''post'' = ''posts''"
  "strip_id_suffix ''author_id'' = ''author''"
  by (simp_all add: extractForeignKeyContext_def shouldIncludeContext_def
      extractRelationFieldName_def pluralize_def vowel_then_y_at_end_def string_defs)

lemma scenario_no_timestamp:
  "\<not> includes_str ''SERIAL'' ''TIMESTAMP''" "\<not> includes_str ''INTEGER'' ''TIMESTAMP''"
  by (simp_all add: startsWith_def)

lemmas conversion_defs =
  convertTablesToModels_def process_table_def process_constraint_def
  createBasicModel_def convertColumnToField_def
  createRelationField_def createBackRelationField_def ensureUniqueFieldName_def
  generateDescriptiveRelationName_def selectNamingColumn_def isRelationOptional_def
  js_nth_def js_last_def truthy_def push_field_def
  foreignKey_def plainColumn_def numbered_loop.simps Let_def

text \<open>
  C1. For the scenario the generator produces the three relation identifiers
  \<open>PostsToUsers_Author\<close>, \<open>PostsToUsers_Editor\<close> and \<open>PostsToUsers_Reviewer\<close>, the
  forward fields \<open>author\<close>, \<open>editor\<close> and \<open>reviewer\<close> on the model of \<open>posts\<close>, and
  the backward fields \<open>postsAuthor\<close>, \<open>postsEditor\<close> and \<open>postsReviewer\<close> on the
  model of \<open>users\<close>. No name has a numeric suffix; the backward names are the
  pluralized table name followed by the context, without the \<open>As\<close> of
  \<open>postsAsAuthor\<close>, \<open>postsAsEditor\<close> and \<open>postsAsReviewer\<close>.
\<close>

theorem three_foreign_keys_generated:
  "map_sum id (map (\<lambda>m. (m_name m, relationFields m)))
     (convertTablesToModels [users_table, posts_table] []) =
   Inr [(''Users'',
          [(''postsAuthor'', ''Posts'', [''@relation('' @ dq @ ''PostsToUsers_Author'' @ dq @ '')'']),
           (''postsEditor'', ''Posts'', [''@relation('' @ dq @ ''PostsToUsers_Editor'' @ dq @ '')'']),
           (''postsReviewer'', ''Posts'',
              [''@relation('' @ dq @ ''PostsToUsers_Reviewer'' @ dq @ '')''])]),
        (''Posts'',
          [(''author'', ''Users'',
              [''@relation('' @ dq @ ''PostsToUsers_Author'' @ dq
                 @ '', fields: [authorId], references: [id])'']),
           (''editor'', ''Users'',
              [''@relation('' @ dq @ ''PostsToUsers_Editor'' @ dq
                 @ '', fields: [editorId], references: [id])'']),
           (''reviewer'', ''Users'',
              [''@relation('' @ dq @ ''PostsToUsers_Reviewer'' @ dq
                 @ '', fields: [reviewerId], references: [id])''])])]"
  by (simp add: users_table_def posts_table_def relationFields_def isRelationField_def
      conversion_defs scenario_names scenario_types scenario_contexts scenario_no_timestamp
      startsWith_def dq_def)

subsection \<open>The base name of a forward field (C4)\<close>

text \<open>The singular of a table name, as \<^verbatim>\<open>sqlToPrismaName\<close> of the converter page
  computes it (\<^verbatim>\<open>pages/converter.tsx\<close>); the generator has no such step.\<close>

definition singularize :: "string \<Rightarrow> string" where
  "singularize result =
     (if endsWith result ''ies'' then take (length result - 3) result @ ''y''
      else if endsWith result ''es'' \<and> \<not> endsWith result ''ses'' then take (length result - 2) result
      else if endsWith result ''s'' \<and> \<not> endsWith result ''ss'' then butlast result
      else result)"

text \<open>For the naming column \<open>id\<close> and the referenced table \<open>users\<close> the base name is
  \<open>users\<close>, the table name itself, and not its singular \<open>user\<close>.\<close>

theorem extractRelationFieldName_plural_counterexample:
  "extractRelationFieldName ''id'' ''users'' = ''users'' \<and> singularize ''users'' = ''user''"
  by (simp add: extractRelationFieldName_def singularize_def scenario_names endsWith_def)

text \<open>
  C4 (amended). The base name of the forward field is the camel-cased name of the
  referenced table, as it is and not singularized, when the naming column is \<open>id\<close>
  (ignoring case), and also when the naming column without its \<open>_id\<close> suffix equals the
  name of the referenced table (ignoring case); otherwise it is the naming column without
  its \<open>_id\<close> suffix, camel-cased. The forward field gets the name that the uniqueness
  cascade returns for this base name.
\<close>

theorem extractRelationFieldName_rule:
  "(toLowerCase fkColumn = ''id'' \<longrightarrow> extractRelationFieldName fkColumn targetTable = toCamelCase targetTable)
   \<and> (toLowerCase fkColumn \<noteq> ''id''
        \<and> toLowerCase (strip_id_suffix fkColumn) = toLowerCase targetTable
       \<longrightarrow> extractRelationFieldName fkColumn targetTable = toCamelCase targetTable)
   \<and> (toLowerCase fkColumn \<noteq> ''id''
        \<and> toLowerCase (strip_id_suffix fkColumn) \<noteq> toLowerCase targetTable
       \<longrightarrow> extractRelationFieldName fkColumn targetTable = toCamelCase (strip_id_suffix fkColumn))
   \<and> (\<forall>constraint table relationName model field.
         createRelationField constraint table relationName model fkColumn = Some field
         \<and> referencedTable constraint = Some targetTable
       \<longrightarrow> f_name field =
             ensureUniqueFieldName (extractRelationFieldName fkColumn targetTable) model fkColumn
               (t_name table))"
  by (auto simp add: extractRelationFieldName_def createRelationField_def Let_def
      split: option.splits if_splits)

theorem extractRelationFieldName_rule_witness:
  "extractRelationFieldName ''id'' ''users'' = ''users''
   \<and> extractRelationFieldName ''users_id'' ''users'' = ''users''
   \<and> extractRelationFieldName ''author_id'' ''users'' = ''author''
   \<and> (\<exists>field. createRelationField (foreignKey [''author_id''] ''users'' [''id'']) posts_table
          ''PostsToUsers_Author'' (createBasicModel posts_table []) ''author_id'' = Some field
        \<and> f_name field = ''author'')"
proof -
  have low: "toLowerCase ''id'' = ''id''" "toLowerCase ''users_id'' \<noteq> ''id''"
      "toLowerCase ''author_id'' \<noteq> ''id''"
      "toLowerCase (strip_id_suffix ''users_id'') = toLowerCase ''users''"
      "toLowerCase (strip_id_suffix ''author_id'') \<noteq> toLowerCase ''users''"
      "toCamelCase (strip_id_suffix ''author_id'') = ''author''"
    by (simp_all add: string_defs)
  from extractRelationFieldName_rule [of "''id''" "''users''"] low
  have 1: "extractRelationFieldName ''id'' ''users'' = ''users''"
    by (simp add: scenario_names)
  from extractRelationFieldName_rule [of "''users_id''" "''users''"] low
  have 2: "extractRelationFieldName ''users_id'' ''users'' = ''users''"
    by (simp add: scenario_names)
  from extractRelationFieldName_rule [of "''author_id''" "''users''"] low
  have 3: "extractRelationFieldName ''author_id'' ''users'' = ''author''"
    by simp
  obtain field where f: "createRelationField (foreignKey [''author_id''] ''users'' [''id'']) posts_table
          ''PostsToUsers_Author'' (createBasicModel posts_table []) ''author_id'' = Some field"
    by (simp add: createRelationField_def foreignKey_def Let_def)
  have r: "referencedTable (foreignKey [''author_id''] ''users'' [''id'']) = Some ''users''"
    by (simp add: foreignKey_def)
  from extractRelationFieldName_rule [of "''author_id''" "''users''", THEN conjunct2, THEN conjunct2,
      THEN conjunct2, rule_format, OF conjI, OF f r]
  have "f_name field = ensureUniqueFieldName (extractRelationFieldName ''author_id'' ''users'')
          (createBasicModel posts_table []) ''author_id'' (t_name posts_table)" .
  also have "\<dots> = ''author''"
    by (simp add: 3 ensureUniqueFieldName_def createBasicModel_def convertColumnToField_def
        posts_table_def plainColumn_def scenario_names Let_def)
  finally have "f_name field = ''author''" .
  with f 1 2 3 show ?thesis by blast
qed

subsection \<open>Optional relations (C5)\<close>




subsection \<open>The \<open>@updatedAt\<close> attribute (C10)\<close>

lemma defaultAttribute_not_updatedAt:
  "defaultAttribute dv \<noteq> ''@updatedAt''" "''@updatedAt'' \<noteq> defaultAttribute dv"
  by (simp_all add: defaultAttribute_def Let_def)

text \<open>
  C10. The scalar field of a column carries the attribute \<open>@updatedAt\<close> if and only if
  the column's type contains \<open>TIMESTAMP\<close> and its lowercased name contains
  \<open>updated\<close>; nothing else of the column is consulted, and the scalar fields of a model
  are the fields of the table's columns.
\<close>

theorem updatedAt_iff:
  "(''@updatedAt'' \<in> set (f_attributes (convertColumnToField column table enums))
    \<longleftrightarrow> includes_str (c_type column) ''TIMESTAMP''
        \<and> includes_str (toLowerCase (c_name column)) ''updated'')
   \<and> m_fields (createBasicModel table enums)
       = map (\<lambda>column. convertColumnToField column table enums) (t_columns table)"
  by (simp add: convertColumnToField_def createBasicModel_def Let_def
      defaultAttribute_not_updatedAt split: option.splits)


subsection \<open>Foreign keys added by ALTER TABLE (C6)\<close>

text \<open>The constraint that a recognized statement adds.\<close>

definition alterConstraint :: "alter_fk_match \<Rightarrow> SQLConstraint" where
  "alterConstraint m = foreignKey [foreignKeyColumn m] (referencedTableName m) [referencedColumn m]"

text \<open>
  C6. For a recognized statement, the tables keep their number and order; the first
  table that has the name of the ALTER clause gets the new foreign-key constraint at the
  end of its constraint list and is otherwise unchanged; every other table, in particular
  a referenced table of another name, is unchanged; when no table has that name the
  tables are returned as they are. An unrecognized statement changes nothing. The function
  is total: it returns the tables in every case.
\<close>

theorem alter_foreign_key_attached:
  "length (parseAlterTableForeignKey (Some m) ts) = length ts
   \<and> (\<forall>i<length ts. t_name (ts ! i) = alterTableName m
          \<and> (\<forall>j<i. t_name (ts ! j) \<noteq> alterTableName m)
        \<longrightarrow> parseAlterTableForeignKey (Some m) ts ! i
            = (ts ! i)\<lparr> constraints := constraints (ts ! i) @ [alterConstraint m] \<rparr>
          \<and> (\<forall>j<length ts. j \<noteq> i \<longrightarrow> parseAlterTableForeignKey (Some m) ts ! j = ts ! j))
   \<and> (\<forall>j<length ts. t_name (ts ! j) \<noteq> alterTableName m
        \<longrightarrow> parseAlterTableForeignKey (Some m) ts ! j = ts ! j)
   \<and> ((\<forall>t\<in>set ts. t_name t \<noteq> alterTableName m) \<longrightarrow> parseAlterTableForeignKey (Some m) ts = ts)
   \<and> parseAlterTableForeignKey None ts = ts"
proof -
  let ?r = "parseAlterTableForeignKey (Some m) ts"
  have none: "parseAlterTableForeignKey None ts = ts"
    by (simp add: parseAlterTableForeignKey_def)
  show ?thesis
  proof (cases "findIndex (\<lambda>t. t_name t = alterTableName m) ts")
    case None
    then have r: "?r = ts"
      by (simp add: parseAlterTableForeignKey_def)
    from None have a: "\<forall>t\<in>set ts. t_name t \<noteq> alterTableName m"
      by (simp add: findIndex_None_iff)
    then have b: "\<forall>i<length ts. t_name (ts ! i) \<noteq> alterTableName m"
      by simp
    from r b none show ?thesis by simp
  next
    case (Some k)
    then have k: "k < length ts" "t_name (ts ! k) = alterTableName m"
        "\<forall>j<k. t_name (ts ! j) \<noteq> alterTableName m"
      by (simp_all add: findIndex_Some_iff)
    from Some have r: "?r = ts[k := (ts ! k)\<lparr> constraints := constraints (ts ! k) @ [alterConstraint m] \<rparr>]"
      by (simp add: parseAlterTableForeignKey_def alterConstraint_def foreignKey_def)
    have u: "i = k" if "i < length ts" "t_name (ts ! i) = alterTableName m"
        "\<forall>j<i. t_name (ts ! j) \<noteq> alterTableName m" for i
    proof (rule ccontr)
      assume "i \<noteq> k"
      then consider "i < k" | "k < i" by linarith
      then show False
      proof cases
        case 1
        with k(3) that(2) show False by blast
      next
        case 2
        with that(3) k(2) show False by blast
      qed
    qed
    have c1: "length ?r = length ts" by (simp add: r)
    have c2: "\<forall>i<length ts. t_name (ts ! i) = alterTableName m
          \<and> (\<forall>j<i. t_name (ts ! j) \<noteq> alterTableName m)
        \<longrightarrow> ?r ! i = (ts ! i)\<lparr> constraints := constraints (ts ! i) @ [alterConstraint m] \<rparr>
          \<and> (\<forall>j<length ts. j \<noteq> i \<longrightarrow> ?r ! j = ts ! j)"
    proof (intro allI impI)
      fix i
      assume "i < length ts"
        and h: "t_name (ts ! i) = alterTableName m \<and> (\<forall>j<i. t_name (ts ! j) \<noteq> alterTableName m)"
      with u have "i = k" by blast
      with k(1) show "?r ! i = (ts ! i)\<lparr> constraints := constraints (ts ! i) @ [alterConstraint m] \<rparr>
          \<and> (\<forall>j<length ts. j \<noteq> i \<longrightarrow> ?r ! j = ts ! j)"
        by (simp add: r)
    qed
    have c3: "\<forall>j<length ts. t_name (ts ! j) \<noteq> alterTableName m \<longrightarrow> ?r ! j = ts ! j"
    proof (intro allI impI)
      fix j
      assume "j < length ts" and "t_name (ts ! j) \<noteq> alterTableName m"
      with k(2) have "j \<noteq> k" by blast
      then show "?r ! j = ts ! j" by (simp add: r)
    qed
    have c4: "(\<forall>t\<in>set ts. t_name t \<noteq> alterTableName m) \<longrightarrow> ?r = ts"
      using k(1,2) nth_mem by blast
    from c1 c2 c3 c4 none show ?thesis by blast
  qed
qed

text \<open>The statement \<^verbatim>\<open>ALTER TABLE posts ADD FOREIGN KEY (user_id) REFERENCES users(id)\<close>,
  and one that alters a table \<open>comments\<close> that was not declared.\<close>

definition alter_posts :: alter_fk_match where
  "alter_posts = \<lparr> alterTableName = ''posts'', foreignKeyColumn = ''user_id'',
                    referencedTableName = ''users'', referencedColumn = ''id'' \<rparr>"

definition alter_comments :: alter_fk_match where
  "alter_comments = \<lparr> alterTableName = ''comments'', foreignKeyColumn = ''post_id'',
                       referencedTableName = ''posts'', referencedColumn = ''id'' \<rparr>"

theorem alter_foreign_key_attached_witness:
  "parseAlterTableForeignKey (Some alter_posts) [users_table, posts_table]
     = [users_table,
        posts_table\<lparr> constraints := constraints posts_table @ [alterConstraint alter_posts] \<rparr>]
   \<and> parseAlterTableForeignKey (Some alter_comments) [users_table, posts_table]
     = [users_table, posts_table]"
proof -
  let ?ts = "[users_table, posts_table]"
  let ?r = "parseAlterTableForeignKey (Some alter_posts) ?ts"
  have n: "t_name users_table = ''users''" "t_name posts_table = ''posts''"
      "alterTableName alter_posts = ''posts''" "alterTableName alter_comments = ''comments''"
    by (simp_all add: users_table_def posts_table_def alter_posts_def alter_comments_def)
  note a = alter_foreign_key_attached [of alter_posts ?ts]
  from a have l: "length ?r = 2" by simp
  have h: "t_name (?ts ! 1) = alterTableName alter_posts
          \<and> (\<forall>j<1. t_name (?ts ! j) \<noteq> alterTableName alter_posts)"
    by (simp add: n)
  from a [THEN conjunct2, THEN conjunct1, rule_format, of 1] h
  have p: "?r ! 1 = posts_table\<lparr> constraints := constraints posts_table @ [alterConstraint alter_posts] \<rparr>"
    and q: "\<forall>j<length ?ts. j \<noteq> 1 \<longrightarrow> ?r ! j = ?ts ! j"
    by simp_all
  from q [rule_format, of 0] have u: "?r ! 0 = users_table" by simp
  from l obtain x y where xy: "?r = [x, y]"
    by (auto simp: length_Suc_conv numeral_2_eq_2)
  with u p have 1: "?r = [users_table,
        posts_table\<lparr> constraints := constraints posts_table @ [alterConstraint alter_posts] \<rparr>]"
    by simp
  have "\<forall>t\<in>set ?ts. t_name t \<noteq> alterTableName alter_comments"
    by (simp add: n)
  with alter_foreign_key_attached [of alter_comments ?ts]
  have 2: "parseAlterTableForeignKey (Some alter_comments) ?ts = ?ts" by blast
  from 1 2 show ?thesis by simp
qed

subsection \<open>The uniqueness cascade (C3)\<close>

lemma numbered_loop_result:
  "(u \<notin> set names \<and> numbered_loop pre names u c = u)
   \<or> (u \<in> set names \<and> (\<exists>k\<ge>c. numbered_loop pre names u c = pre @ show_nat k
          \<and> pre @ show_nat k \<notin> set names
          \<and> (\<forall>j. c \<le> j \<and> j < k \<longrightarrow> pre @ show_nat j \<in> set names)))"
proof (induction pre names u c rule: numbered_loop.induct)
  case (1 pre names uniqueName counter)
  show ?case
  proof (cases "uniqueName \<in> set names")
    case False
    then show ?thesis by (simp add: numbered_loop.simps [of pre names uniqueName counter])
  next
    case True
    note IH = "1.IH" [OF True]
    have e: "numbered_loop pre names uniqueName counter
        = numbered_loop pre names (pre @ show_nat counter) (counter + 1)"
      using True by (simp add: numbered_loop.simps [of pre names uniqueName counter])
    from IH show ?thesis
    proof
      assume a: "pre @ show_nat counter \<notin> set names
          \<and> numbered_loop pre names (pre @ show_nat counter) (counter + 1) = pre @ show_nat counter"
      have "counter \<le> counter \<and> numbered_loop pre names uniqueName counter = pre @ show_nat counter
          \<and> pre @ show_nat counter \<notin> set names
          \<and> (\<forall>j. counter \<le> j \<and> j < counter \<longrightarrow> pre @ show_nat j \<in> set names)"
        using a e by auto
      with True show ?thesis by blast
    next
      assume "pre @ show_nat counter \<in> set names \<and> (\<exists>k\<ge>counter + 1.
          numbered_loop pre names (pre @ show_nat counter) (counter + 1) = pre @ show_nat k
          \<and> pre @ show_nat k \<notin> set names
          \<and> (\<forall>j. counter + 1 \<le> j \<and> j < k \<longrightarrow> pre @ show_nat j \<in> set names))"
      then obtain k where k: "counter + 1 \<le> k" "pre @ show_nat counter \<in> set names"
          "numbered_loop pre names (pre @ show_nat counter) (counter + 1) = pre @ show_nat k"
          "pre @ show_nat k \<notin> set names"
          "\<forall>j. counter + 1 \<le> j \<and> j < k \<longrightarrow> pre @ show_nat j \<in> set names"
        by blast
      have "\<forall>j. counter \<le> j \<and> j < k \<longrightarrow> pre @ show_nat j \<in> set names"
      proof (intro allI impI)
        fix j assume j: "counter \<le> j \<and> j < k"
        show "pre @ show_nat j \<in> set names"
        proof (cases "j = counter")
          case True
          with k(2) show ?thesis by simp
        next
          case False
          with j have "counter + 1 \<le> j \<and> j < k" by simp
          with k(5) show ?thesis by blast
        qed
      qed
      moreover from k(1) have "counter \<le> k" by simp
      ultimately have "counter \<le> k \<and> numbered_loop pre names uniqueName counter = pre @ show_nat k
          \<and> pre @ show_nat k \<notin> set names
          \<and> (\<forall>j. counter \<le> j \<and> j < k \<longrightarrow> pre @ show_nat j \<in> set names)"
        using e k(3,4) by simp
      with True show ?thesis by blast
    qed
  qed
qed

text \<open>The candidates in the order of the specification: the base name, the naming
  column without \<open>_id\<close>, the table name before the base name, the whole naming column,
  the table name joined with the naming column without \<open>_id\<close>, and then that name with
  the counters 2, 3, 4 and so on.\<close>

definition cascade_candidate :: "string \<Rightarrow> string \<Rightarrow> string \<Rightarrow> nat \<Rightarrow> string" where
  "cascade_candidate baseName fkColumn sourceTable n =
     (if n = 0 then baseName
      else if n = 1 then toCamelCase (strip_id_suffix fkColumn)
      else if n = 2 then toCamelCase sourceTable @ toPascalCase baseName
      else if n = 3 then toCamelCase fkColumn
      else if n = 4 then toCamelCase (sourceTable @ ''_'' @ strip_id_suffix fkColumn)
      else toCamelCase (sourceTable @ ''_'' @ strip_id_suffix fkColumn) @ show_nat (n - 3))"

lemma ensureUnique_first_free:
  "\<exists>n. ensureUniqueFieldName b m fk src = cascade_candidate b fk src n
       \<and> cascade_candidate b fk src n \<notin> set (map f_name (m_fields m))
       \<and> (\<forall>i<n. cascade_candidate b fk src i \<in> set (map f_name (m_fields m)))"
proof -
  let ?E = "set (map f_name (m_fields m))"
  let ?c = "cascade_candidate b fk src"
  let ?L = "toCamelCase (src @ ''_'' @ strip_id_suffix fk)"
  have c: "?c 0 = b" "?c 1 = toCamelCase (strip_id_suffix fk)"
      "?c 2 = toCamelCase src @ toPascalCase b" "?c 3 = toCamelCase fk" "?c 4 = ?L"
    by (simp_all add: cascade_candidate_def)
  have c5: "?c (k + 3) = ?L @ show_nat k" if "2 \<le> k" for k
    using that by (simp add: cascade_candidate_def)
  have below: "i = 0 \<or> i = 1 \<or> i = 2 \<or> i = 3 \<or> i = 4 \<or> (\<exists>j\<ge>2. i = j + 3)" for i :: nat
  proof (cases "i \<le> 4")
    case True
    then show ?thesis by arith
  next
    case False
    then have "2 \<le> i - 3 \<and> i = (i - 3) + 3" by arith
    then show ?thesis by blast
  qed
  show ?thesis
  proof (cases "?c 0 \<in> ?E")
    case False
    then have "ensureUniqueFieldName b m fk src = ?c 0"
      by (simp add: ensureUniqueFieldName_def c)
    with False show ?thesis by (intro exI [of _ 0]) simp
  next
    case in0: True
    show ?thesis
    proof (cases "?c 1 \<in> ?E")
      case False
      with in0 have n: "?c 1 \<noteq> b" unfolding c by metis
      with in0 False have "ensureUniqueFieldName b m fk src = ?c 1"
        unfolding c by (simp add: ensureUniqueFieldName_def)
      with in0 False show ?thesis by (intro exI [of _ 1]) simp
    next
      case in1: True
      show ?thesis
      proof (cases "?c 2 \<in> ?E")
        case False
        with in0 in1 have "ensureUniqueFieldName b m fk src = ?c 2"
          unfolding c by (simp add: ensureUniqueFieldName_def)
        with in0 in1 False show ?thesis
          by (intro exI [of _ 2]) (simp add: less_Suc_eq numeral_2_eq_2)
      next
        case in2: True
        show ?thesis
        proof (cases "?c 3 \<in> ?E")
          case False
          with in0 in1 in2 have "ensureUniqueFieldName b m fk src = ?c 3"
            unfolding c by (simp add: ensureUniqueFieldName_def)
          with in0 in1 in2 False show ?thesis
            by (intro exI [of _ 3]) (simp add: less_Suc_eq numeral_3_eq_3 numeral_2_eq_2)
        next
          case in3: True
          show ?thesis
          proof (cases "?c 4 \<in> ?E")
            case False
            with in0 in1 in2 in3 have "ensureUniqueFieldName b m fk src = ?c 4"
              unfolding c by (simp add: ensureUniqueFieldName_def)
            moreover have "\<forall>i<4. ?c i \<in> ?E"
            proof (intro allI impI)
              fix i :: nat assume "i < 4"
              then have "i = 0 \<or> i = 1 \<or> i = 2 \<or> i = 3" by arith
              with in0 in1 in2 in3 show "?c i \<in> ?E" by blast
            qed
            ultimately show ?thesis using False by (intro exI [of _ 4]) simp
          next
            case in4: True
            from in0 in1 in2 in3 in4
            have e: "ensureUniqueFieldName b m fk src
                = numbered_loop ?L (map f_name (m_fields m)) (?L @ show_nat 2) 2"
              unfolding c by (simp add: ensureUniqueFieldName_def Let_def)
            have "\<exists>k\<ge>2. numbered_loop ?L (map f_name (m_fields m)) (?L @ show_nat 2) 2 = ?L @ show_nat k
                \<and> ?L @ show_nat k \<notin> ?E \<and> (\<forall>j. 2 \<le> j \<and> j < k \<longrightarrow> ?L @ show_nat j \<in> ?E)"
              using numbered_loop_result [of "?L @ show_nat 2" "map f_name (m_fields m)" ?L 2]
              by auto
            then obtain k where k: "2 \<le> k" "ensureUniqueFieldName b m fk src = ?L @ show_nat k"
                "?L @ show_nat k \<notin> ?E" "\<forall>j. 2 \<le> j \<and> j < k \<longrightarrow> ?L @ show_nat j \<in> ?E"
              unfolding e by blast
            have "\<forall>i<k + 3. ?c i \<in> ?E"
            proof (intro allI impI)
              fix i assume i: "i < k + 3"
              from below [of i] show "?c i \<in> ?E"
              proof (elim disjE exE conjE)
                fix j assume j: "2 \<le> j" "i = j + 3"
                with i have "2 \<le> j \<and> j < k" by simp
                with k(4) have "?L @ show_nat j \<in> ?E" by blast
                with j c5 [OF j(1)] show ?thesis by simp
              qed (use in0 in1 in2 in3 in4 in simp_all)
            qed
            with k c5 [OF k(1)] show ?thesis by (intro exI [of _ "k + 3"]) simp
          qed
        qed
      qed
    qed
  qed
qed

text \<open>
  C3. The name returned by the cascade is the first candidate, in the order above, that
  is not a field name of the target model; so it is never a field name of that model.
  The forward and the backward relation field both get their name from the cascade, so
  neither is named like a field of the model it is added to.
\<close>

theorem uniqueness_cascade:
  "ensureUniqueFieldName baseName model fkColumn sourceTable
     = cascade_candidate baseName fkColumn sourceTable
         (LEAST n. cascade_candidate baseName fkColumn sourceTable n
                     \<notin> set (map f_name (m_fields model)))
   \<and> ensureUniqueFieldName baseName model fkColumn sourceTable
       \<notin> set (map f_name (m_fields model))
   \<and> (\<forall>constraint table relationName field.
         createRelationField constraint table relationName model fkColumn = Some field
         \<longrightarrow> f_name field \<notin> set (map f_name (m_fields model)))
   \<and> (\<forall>constraint table relationName field.
         createBackRelationField constraint table relationName model fkColumn = Some field
         \<longrightarrow> f_name field \<notin> set (map f_name (m_fields model)))"
proof -
  let ?E = "set (map f_name (m_fields model))"
  have free: "ensureUniqueFieldName b model fk src \<notin> ?E" for b fk src
    using ensureUnique_first_free [of b model fk src] by metis
  obtain n where n: "ensureUniqueFieldName baseName model fkColumn sourceTable
        = cascade_candidate baseName fkColumn sourceTable n"
      "cascade_candidate baseName fkColumn sourceTable n \<notin> ?E"
      "\<forall>i<n. cascade_candidate baseName fkColumn sourceTable i \<in> ?E"
    using ensureUnique_first_free [of baseName model fkColumn sourceTable] by blast
  have "(LEAST n. cascade_candidate baseName fkColumn sourceTable n \<notin> ?E) = n"
  proof (rule Least_equality)
    show "cascade_candidate baseName fkColumn sourceTable n \<notin> ?E" by (rule n(2))
  next
    fix y assume "cascade_candidate baseName fkColumn sourceTable y \<notin> ?E"
    with n(3) show "n \<le> y" by (meson not_le)
  qed
  with n(1) have 1: "ensureUniqueFieldName baseName model fkColumn sourceTable
     = cascade_candidate baseName fkColumn sourceTable
         (LEAST n. cascade_candidate baseName fkColumn sourceTable n \<notin> ?E)"
    by simp
  have 3: "\<forall>constraint table relationName field.
         createRelationField constraint table relationName model fkColumn = Some field
         \<longrightarrow> f_name field \<notin> ?E"
    using free by (auto simp add: createRelationField_def Let_def split: option.splits if_splits)
  have 4: "\<forall>constraint table relationName field.
         createBackRelationField constraint table relationName model fkColumn = Some field
         \<longrightarrow> f_name field \<notin> ?E"
    using free by (auto simp add: createBackRelationField_def Let_def split: option.splits if_splits)
  from 1 free 3 4 show ?thesis by blast
qed

theorem uniqueness_cascade_witness:
  "(\<exists>field. createRelationField (foreignKey [''author_id''] ''users'' [''id'']) posts_table
        ''PostsToUsers_Author'' (createBasicModel posts_table []) ''author_id'' = Some field
      \<and> f_name field \<notin> set (map f_name (m_fields (createBasicModel posts_table []))))
   \<and> (\<exists>field. createBackRelationField (foreignKey [''author_id''] ''users'' [''id'']) posts_table
        ''PostsToUsers_Author'' (createBasicModel users_table []) ''author_id'' = Some field
      \<and> f_name field \<notin> set (map f_name (m_fields (createBasicModel users_table []))))"
proof -
  obtain f where f: "createRelationField (foreignKey [''author_id''] ''users'' [''id'']) posts_table
        ''PostsToUsers_Author'' (createBasicModel posts_table []) ''author_id'' = Some f"
    by (simp add: createRelationField_def foreignKey_def Let_def)
  obtain g where g: "createBackRelationField (foreignKey [''author_id''] ''users'' [''id'']) posts_table
        ''PostsToUsers_Author'' (createBasicModel users_table []) ''author_id'' = Some g"
    by (simp add: createBackRelationField_def foreignKey_def truthy_def Let_def)
  from f uniqueness_cascade [of "''author''" "createBasicModel posts_table []" "''author_id''" "''posts''"]
  have 1: "f_name f \<notin> set (map f_name (m_fields (createBasicModel posts_table [])))"
    by blast
  from g uniqueness_cascade [of "''author''" "createBasicModel users_table []" "''author_id''" "''posts''"]
  have 2: "f_name g \<notin> set (map f_name (m_fields (createBasicModel users_table [])))"
    by blast
  from f g 1 2 show ?thesis by blast
qed


subsection \<open>The statement segmenter (C7)\<close>
























subsection \<open>The order of the tables (C8)\<close>








text \<open>Adding a field to the model of a name: with pairwise different model names, adding
  at the position found by name is a map over the models, and a map commutes with a
  permutation of the list.\<close>

definition upd_named :: "string \<Rightarrow> PrismaField \<Rightarrow> PrismaModel list \<Rightarrow> PrismaModel list" where
  "upd_named n f ms =
     map (\<lambda>m. if m_name m = n then m\<lparr> m_fields := m_fields m @ [f] \<rparr> else m) ms"

lemma upd_named_names: "map m_name (upd_named n f ms) = map m_name ms"
  by (induction ms) (simp_all add: upd_named_def)


































end
